theory Spec2Isabelle
  imports Main
begin

section \<open>JavaScript string and number primitives used by the page-range parser\<close>

text \<open>
  Strings are character lists. A JavaScript number that comes out of \<open>parseInt\<close> is
  modelled as \<open>int option\<close>: \<open>None\<close> is \<open>NaN\<close> (or \<open>undefined\<close>, which compares the
  same way), \<open>Some n\<close> the integer \<open>n\<close>. Every comparison with \<open>NaN\<close> is false.
  The integers are unbounded here; the code compares them only with \<open>totalPages\<close>, a page
  count, and rounding to a double is monotone, so the comparisons agree.
  White space is the white space of ASCII; the spaces outside ASCII that JavaScript
  also trims are several characters of a byte string and are not treated as white space.
\<close>

definition isWhiteSpace :: "char \<Rightarrow> bool" where
  "isWhiteSpace c \<longleftrightarrow>
     c = CHR '' '' \<or> c = CHR 0x09 \<or> c = CHR 0x0A \<or> c = CHR 0x0B \<or> c = CHR 0x0C \<or> c = CHR 0x0D"

text \<open>\<open>String.prototype.trim\<close>.\<close>

definition trim :: "string \<Rightarrow> string" where
  "trim s = rev (dropWhile isWhiteSpace (rev (dropWhile isWhiteSpace s)))"

text \<open>\<open>String.prototype.split\<close> with a one-character separator: never an empty array.\<close>

fun js_split :: "char \<Rightarrow> string \<Rightarrow> string list" where
  "js_split sep [] = [[]]"
| "js_split sep (c # cs) =
     (if c = sep then [] # js_split sep cs
      else (case js_split sep cs of
              [] \<Rightarrow> [[c]]
            | w # ws \<Rightarrow> (c # w) # ws))"

text \<open>\<open>String.prototype.includes\<close> with a one-character needle.\<close>

definition str_includes :: "string \<Rightarrow> char \<Rightarrow> bool" where
  "str_includes s c \<longleftrightarrow> c \<in> set s"

text \<open>The value of a character as a digit of the given radix (10 or 16), if it is one.\<close>

definition digit_of :: "nat \<Rightarrow> char \<Rightarrow> nat option" where
  "digit_of radix c =
     (let n = (of_char c :: nat);
          d = (if 48 \<le> n \<and> n \<le> 57 then Some (n - 48)
               else if 97 \<le> n \<and> n \<le> 102 then Some (n - 87)
               else if 65 \<le> n \<and> n \<le> 70 then Some (n - 55)
               else None)
      in case d of
           None \<Rightarrow> None
         | Some v \<Rightarrow> if v < radix then Some v else None)"

text \<open>The longest prefix of digits, as digit values.\<close>

fun digits_prefix :: "nat \<Rightarrow> string \<Rightarrow> nat list" where
  "digits_prefix radix [] = []"
| "digits_prefix radix (c # cs) =
     (case digit_of radix c of
        None \<Rightarrow> []
      | Some v \<Rightarrow> v # digits_prefix radix cs)"

definition digits_value :: "nat \<Rightarrow> nat list \<Rightarrow> nat" where
  "digits_value radix ds = foldl (\<lambda>a d. a * radix + d) 0 ds"

text \<open>
  \<open>parseInt(s)\<close> with no radix argument: leading white space is skipped, one sign is
  read, a \<open>0x\<close> or \<open>0X\<close> prefix selects radix 16, the longest prefix of digits is the
  value and whatever follows it is ignored; no digit at all gives \<open>NaN\<close>.
\<close>

definition parseInt :: "string \<Rightarrow> int option" where
  "parseInt s =
     (let t = dropWhile isWhiteSpace s;
          neg = (case t of [] \<Rightarrow> False | c # _ \<Rightarrow> c = CHR ''-'');
          u = (case t of [] \<Rightarrow> [] | c # r \<Rightarrow> if c = CHR ''-'' \<or> c = CHR ''+'' then r else t);
          hex = (case u of
                   a # b # _ \<Rightarrow> a = CHR ''0'' \<and> (b = CHR ''x'' \<or> b = CHR ''X'')
                 | _ \<Rightarrow> False);
          radix = (if hex then 16 else 10);
          v = (if hex then drop 2 u else u);
          ds = digits_prefix radix v
      in if ds = [] then None
         else Some ((if neg then - 1 else 1) * int (digits_value radix ds)))"

text \<open>\<open>a <= b\<close> on numbers: false as soon as one side is \<open>NaN\<close> or \<open>undefined\<close>.\<close>

definition js_le :: "int option \<Rightarrow> int option \<Rightarrow> bool" where
  "js_le a b = (case (a, b) of (Some x, Some y) \<Rightarrow> x \<le> y | _ \<Rightarrow> False)"

text \<open>Array destructuring \<open>const [start, end] = xs\<close>: a missing element is \<open>undefined\<close>.\<close>

definition element :: "int option list \<Rightarrow> nat \<Rightarrow> int option" where
  "element xs k = (if k < length xs then xs ! k else None)"

section \<open>The page-range parser\<close>

text \<open>
  A JavaScript \<open>Set\<close> of numbers keeps its elements in insertion order:
  a duplicate-free list, \<open>add\<close> appending a new element at the end.
\<close>

definition set_add :: "int list \<Rightarrow> int \<Rightarrow> int list" where
  "set_add pages x = (if x \<in> set pages then pages else pages @ [x])"

text \<open>
  The loop \<open>for (let i = start; i <= end && i <= totalPages; i++) if (i >= 1) pages.add(i - 1)\<close>
  once \<open>i\<close> is a number; \<open>end\<close> may still be \<open>NaN\<close>.
\<close>

function range_loop :: "int \<Rightarrow> int option \<Rightarrow> int \<Rightarrow> int list \<Rightarrow> int list" where
  "range_loop i end totalPages pages =
     (if js_le (Some i) end \<and> i \<le> totalPages
      then range_loop (i + 1) end totalPages (if i \<ge> 1 then set_add pages (i - 1) else pages)
      else pages)"
  by pat_completeness auto
termination
  by (relation "measure (\<lambda>(i, e, totalPages, pages). nat (totalPages + 1 - i))") auto

declare range_loop.simps [simp del]

text \<open>One iteration of \<open>for (const part of parts)\<close>.\<close>

definition parse_part :: "int \<Rightarrow> int list \<Rightarrow> string \<Rightarrow> int list" where
  "parse_part totalPages pages part =
     (if str_includes part (CHR ''-'') then
        (let ns = map (\<lambda>n. parseInt (trim n)) (js_split (CHR ''-'') part);
             start = element ns 0;
             end = element ns 1
         in case start of
              None \<Rightarrow> pages
            | Some s \<Rightarrow> range_loop s end totalPages pages)
      else
        (case parseInt part of
           None \<Rightarrow> pages
         | Some pageNum \<Rightarrow>
             if pageNum \<ge> 1 \<and> pageNum \<le> totalPages then set_add pages (pageNum - 1) else pages))"

definition parsePageRange :: "string \<Rightarrow> int \<Rightarrow> int list" where
  "parsePageRange pageString totalPages =
     (let parts = map trim (js_split (CHR '','') pageString)
      in sort (foldl (parse_part totalPages) [] parts))"


section \<open>The reference parser of the specification\<close>

text \<open>
  The parser as the specification words it: the expression is split on commas; an atom
  with a dash is read as two integers \<open>start\<close>, \<open>end\<close> and gives every \<open>i\<close> of
  \<open>[start, end]\<close> with \<open>1 \<le> i \<le> totalPages\<close>, zero-based; any other atom is read as one
  integer under the same bound; an atom that cannot be read gives nothing; the result is
  the set of all these indices in ascending order. Reading an integer is \<open>parseInt\<close>.
\<close>

definition spec_atom_pages :: "int \<Rightarrow> string \<Rightarrow> int set" where
  "spec_atom_pages totalPages atom =
     (if str_includes atom (CHR ''-'') then
        (case map (\<lambda>n. parseInt (trim n)) (js_split (CHR ''-'') atom) of
           Some start # Some end # _ \<Rightarrow>
             (\<lambda>i. i - 1) ` {i \<in> {start..end}. 1 \<le> i \<and> i \<le> totalPages}
         | _ \<Rightarrow> {})
      else
        (case parseInt atom of
           Some p \<Rightarrow> (if 1 \<le> p \<and> p \<le> totalPages then {p - 1} else {})
         | None \<Rightarrow> {}))"


text \<open>The atoms of an expression, as \<open>parsePageRange\<close> cuts them.\<close>

definition atoms :: "string \<Rightarrow> string list" where
  "atoms pageString = map trim (js_split (CHR '','') pageString)"

section \<open>Well-formed atoms\<close>

text \<open>
  The atoms of the data model of the specification, read without \<open>parseInt\<close>: a page
  number is a non-empty string of decimal digits, with the value the digits have; a range
  is two page numbers around one dash, each possibly between white space. Every other
  atom is malformed. A well-formed atom is out of reach of a document when it names none
  of its pages: a page number outside \<open>[1, totalPages]\<close>, or a range with no number of
  \<open>[1, totalPages]\<close> between its bounds (out of bounds, or descending).
\<close>

definition is_digit :: "char \<Rightarrow> bool" where
  "is_digit c \<longleftrightarrow> (let n = (of_char c :: nat) in 48 \<le> n \<and> n \<le> 57)"

definition decimal :: "string \<Rightarrow> nat" where
  "decimal s = foldl (\<lambda>n c. 10 * n + (of_char c - 48)) 0 s"

definition page_atom :: "string \<Rightarrow> int option" where
  "page_atom atom =
     (if atom \<noteq> [] \<and> list_all is_digit atom then Some (int (decimal atom)) else None)"

definition range_atom :: "string \<Rightarrow> (int \<times> int) option" where
  "range_atom atom =
     (case js_split (CHR ''-'') atom of
        [a, b] \<Rightarrow>
          (case (page_atom (trim a), page_atom (trim b)) of
             (Some lo, Some hi) \<Rightarrow> Some (lo, hi)
           | _ \<Rightarrow> None)
      | _ \<Rightarrow> None)"




section \<open>Documents\<close>

text \<open>
  Modelled from the spec: the document capability of the PDF library, which is not part
  of the repository (load bytes to a handle, copy pages between handles, serialise a
  handle to bytes). A handle is the list of its pages; a buffer either serialises such a
  list or is not a document at all, and loading the latter throws. \<open>copyPages\<close> throws
  on an index that is not a page of the source.
\<close>

datatype error =
    MalformedDocument
  | NoValidPages
  | InvalidPageOrder
  | PageIndexError
  | UpstreamUnavailable
  | FailedToSplit

datatype 'p buffer = Pdf "'p list" | NotPdf

fun load :: "'p buffer \<Rightarrow> error + 'p list" where
  "load (Pdf ps) = Inr ps"
| "load NotPdf = Inl MalformedDocument"

definition save :: "'p list \<Rightarrow> 'p buffer" where
  "save doc = Pdf doc"

definition getPageCount :: "'p list \<Rightarrow> int" where
  "getPageCount doc = int (length doc)"

definition getPageIndices :: "'p list \<Rightarrow> int list" where
  "getPageIndices doc = map int [0..<length doc]"

definition copyPages :: "'p list \<Rightarrow> int list \<Rightarrow> error + 'p list" where
  "copyPages src indices =
     (if list_all (\<lambda>i. 0 \<le> i \<and> i < int (length src)) indices
      then Inr (map (\<lambda>i. src ! nat i) indices)
      else Inl PageIndexError)"

definition addPage :: "'p list \<Rightarrow> 'p \<Rightarrow> 'p list" where
  "addPage doc page = doc @ [page]"

section \<open>Merge, split and reorder\<close>

text \<open>The body of \<open>for (const buffer of pdfBuffers)\<close> in \<open>mergePdfs\<close>.\<close>

fun merge_loop :: "'p list \<Rightarrow> 'p buffer list \<Rightarrow> error + 'p list" where
  "merge_loop mergedPdf [] = Inr mergedPdf"
| "merge_loop mergedPdf (buffer # rest) =
     (case load buffer of
        Inl e \<Rightarrow> Inl e
      | Inr pdf \<Rightarrow>
          (case copyPages pdf (getPageIndices pdf) of
             Inl e \<Rightarrow> Inl e
           | Inr pages \<Rightarrow> merge_loop (foldl addPage mergedPdf pages) rest))"

definition mergePdfs :: "'p buffer list \<Rightarrow> error + 'p buffer" where
  "mergePdfs pdfBuffers =
     (case merge_loop [] pdfBuffers of
        Inl e \<Rightarrow> Inl e
      | Inr mergedPdf \<Rightarrow> Inr (save mergedPdf))"

record 'p split_result =
  buffer :: "'p buffer"
  pages :: string
  pageCount :: nat

text \<open>The body of \<open>for (const group of groups)\<close> in \<open>splitPdf\<close>.\<close>

fun split_loop ::
  "'p list \<Rightarrow> int \<Rightarrow> 'p split_result list \<Rightarrow> string list \<Rightarrow> error + 'p split_result list"
where
  "split_loop originalPdf totalPages results [] = Inr results"
| "split_loop originalPdf totalPages results (grp # rest) =
     (let pageIndices = parsePageRange grp totalPages
      in if length pageIndices = 0 then split_loop originalPdf totalPages results rest
         else
           (case copyPages originalPdf pageIndices of
              Inl e \<Rightarrow> Inl e
            | Inr copied \<Rightarrow>
                split_loop originalPdf totalPages
                  (results @
                    [\<lparr>buffer = save (foldl addPage [] copied),
                      pages = grp,
                      pageCount = length pageIndices\<rparr>])
                  rest))"

text \<open>\<open>pageRanges.split(';').map(s => s.trim()).filter(s => s)\<close>: an empty string is falsy.\<close>

definition groups_of :: "string \<Rightarrow> string list" where
  "groups_of pageRanges = filter (\<lambda>s. s \<noteq> []) (map trim (js_split (CHR '';'') pageRanges))"

definition splitPdf :: "'p buffer \<Rightarrow> string \<Rightarrow> error + 'p split_result list" where
  "splitPdf pdfBuffer pageRanges =
     (case load pdfBuffer of
        Inl e \<Rightarrow> Inl e
      | Inr originalPdf \<Rightarrow>
          split_loop originalPdf (getPageCount originalPdf) [] (groups_of pageRanges))"

text \<open>
  The split route of the server, from the call of \<open>splitPdf\<close> to the check of its
  result: \<open>if (splitResults.length === 0)\<close> answers \<open>No valid pages specified\<close>.
\<close>

definition splitDocument :: "'p buffer \<Rightarrow> string \<Rightarrow> error + 'p split_result list" where
  "splitDocument pdfBuffer pageRanges =
     (case splitPdf pdfBuffer pageRanges of
        Inl e \<Rightarrow> Inl e
      | Inr splitResults \<Rightarrow>
          if length splitResults = 0 then Inl NoValidPages else Inr splitResults)"

text \<open>\<open>newOrder\<close> is an array of integers; \<open>throw new Error('Invalid page order specified')\<close>
  is \<open>InvalidPageOrder\<close>.\<close>

definition reorderPdfPages :: "'p buffer \<Rightarrow> int list \<Rightarrow> error + 'p buffer" where
  "reorderPdfPages pdfBuffer newOrder =
     (case load pdfBuffer of
        Inl e \<Rightarrow> Inl e
      | Inr originalPdf \<Rightarrow>
          (let totalPages = getPageCount originalPdf;
               validOrder = map (\<lambda>n. n - 1) (filter (\<lambda>n. n \<ge> 1 \<and> n \<le> totalPages) newOrder)
           in if length validOrder = 0 then Inl InvalidPageOrder
              else
                (case copyPages originalPdf validOrder of
                   Inl e \<Rightarrow> Inl e
                 | Inr copied \<Rightarrow> Inr (save (foldl addPage [] copied)))))"


text \<open>What the claims say of the results: the pages a buffer holds, the output document
  of one group, and the groups that select at least one page.\<close>

fun pages_of :: "'p buffer \<Rightarrow> 'p list" where
  "pages_of (Pdf ps) = ps"
| "pages_of NotPdf = []"

definition group_result :: "'p list \<Rightarrow> string \<Rightarrow> 'p split_result" where
  "group_result doc g =
     (let idx = parsePageRange g (int (length doc))
      in \<lparr>buffer = Pdf (map (\<lambda>i. doc ! nat i) idx), pages = g, pageCount = length idx\<rparr>)"

definition nonempty_groups :: "'p list \<Rightarrow> string \<Rightarrow> string list" where
  "nonempty_groups doc pageRanges =
     filter (\<lambda>g. parsePageRange g (int (length doc)) \<noteq> []) (groups_of pageRanges)"

section \<open>The retention sweep\<close>

text \<open>
  Modelled from the spec: the external object store (section 6), which the repository
  calls and does not implement. An object has an id, a set of tags and a creation time;
  \<open>created_at\<close> is the number \<open>new Date(created_at).getTime()\<close> yields, \<open>None\<close> when it
  is \<open>NaN\<close>. The store keeps the objects of each resource kind in its listing order.
  A listing call answers one page of at most \<open>max_results\<close> objects carrying the tag and
  a cursor when more remain; a call may fail.
\<close>

datatype resource_kind = Image | Raw

record resource =
  public_id :: string
  tags :: "string list"
  created_at :: "int option"

text \<open>
  The lines a sweep writes to the console. \<open>Completed\<close> carries the elapsed time in
  milliseconds (the code prints it in seconds), the total of deleted files, the deleted
  images and the deleted raw files.
\<close>

datatype log_entry =
    StartingCleanup
  | Deleted resource_kind string
  | FailedToDelete string
  | ErrorFetching resource_kind
  | Completed int nat nat nat
  | JobFailed

text \<open>
  What a sweep can change or consume: the store, the number of readings of the wall clock
  taken so far, and the console.
\<close>

record state =
  store :: "resource_kind \<Rightarrow> resource list"
  reads :: nat
  console :: "log_entry list"

text \<open>
  What a sweep cannot change: the wall clock (\<open>clock k\<close> is the time of the reading number
  \<open>k\<close>), which listing and which deletion calls fail, and the configured time to live.
\<close>

record env =
  clock :: "nat \<Rightarrow> int"
  list_fails :: "resource_kind \<Rightarrow> bool"
  destroy_fails :: "string \<Rightarrow> bool"
  FILE_TTL_HOURS :: int

text \<open>The answer of a listing call, the listing call and the deletion call of the store.\<close>

record listing =
  resources :: "resource list"
  next_cursor :: "nat option"

definition resources_by_tag ::
  "env \<Rightarrow> string \<Rightarrow> nat \<Rightarrow> resource_kind \<Rightarrow> state \<Rightarrow> (error \<times> state) + (listing \<times> state)"
where
  "resources_by_tag e tag max_results resourceType st =
     (if list_fails e resourceType then Inl (UpstreamUnavailable, st)
      else
        (let tagged = filter (\<lambda>r. tag \<in> set (tags r)) (store st resourceType)
         in Inr (\<lparr>resources = take max_results tagged,
                  next_cursor = (if length tagged > max_results then Some max_results else None)\<rparr>,
                 st)))"

definition destroy ::
  "env \<Rightarrow> string \<Rightarrow> resource_kind \<Rightarrow> state \<Rightarrow> (error \<times> state) + state"
where
  "destroy e publicId resourceType st =
     (if destroy_fails e publicId then Inl (UpstreamUnavailable, st)
      else Inr (st\<lparr>store := (store st)
                  (resourceType := filter (\<lambda>r. public_id r \<noteq> publicId) (store st resourceType))\<rparr>))"

text \<open>\<open>Date.now()\<close>: one more reading of the clock.\<close>

definition now :: "env \<Rightarrow> state \<Rightarrow> int \<times> state" where
  "now e st = (clock e (reads st), st\<lparr>reads := reads st + 1\<rparr>)"

text \<open>\<open>console.log\<close> and \<open>console.error\<close>.\<close>

definition say :: "log_entry \<Rightarrow> state \<Rightarrow> state" where
  "say entry st = st\<lparr>console := console st @ [entry]\<rparr>"

text \<open>The two calls of the store the repository wraps; the page size 500 is in the code.\<close>

definition deleteResource ::
  "env \<Rightarrow> string \<Rightarrow> resource_kind \<Rightarrow> state \<Rightarrow> (error \<times> state) + state"
where
  "deleteResource e publicId resourceType st = destroy e publicId resourceType st"

definition getResourcesByTag ::
  "env \<Rightarrow> string \<Rightarrow> resource_kind \<Rightarrow> state \<Rightarrow> (error \<times> state) + (listing \<times> state)"
where
  "getResourcesByTag e tag resourceType st = resources_by_tag e tag 500 resourceType st"

text \<open>A comparison with \<open>NaN\<close> is false.\<close>

definition isExpired :: "env \<Rightarrow> int option \<Rightarrow> state \<Rightarrow> bool \<times> state" where
  "isExpired e createdAt st =
     (let creationTime = createdAt;
          expirationTime = FILE_TTL_HOURS e * 60 * 60 * 1000;
          (t, st') = now e st
      in (case creationTime of
            None \<Rightarrow> False
          | Some c \<Rightarrow> t - c > expirationTime,
          st'))"

text \<open>\<open>result.resources.filter(r => isExpired(r.created_at))\<close>.\<close>

fun filter_expired :: "env \<Rightarrow> resource list \<Rightarrow> state \<Rightarrow> resource list \<times> state" where
  "filter_expired e [] st = ([], st)"
| "filter_expired e (r # rs) st =
     (let (expired, st1) = isExpired e (created_at r) st;
          (rest, st2) = filter_expired e rs st1
      in (if expired then r # rest else rest, st2))"

text \<open>The loop \<open>for (const resource of expiredResources)\<close> with its \<open>try\<close> and \<open>catch\<close>.\<close>

fun delete_loop ::
  "env \<Rightarrow> resource_kind \<Rightarrow> resource list \<Rightarrow> nat \<Rightarrow> state \<Rightarrow> nat \<times> state"
where
  "delete_loop e resourceType [] deletedCount st = (deletedCount, st)"
| "delete_loop e resourceType (r # rs) deletedCount st =
     (case deleteResource e (public_id r) resourceType st of
        Inr st1 \<Rightarrow>
          delete_loop e resourceType rs (deletedCount + 1)
            (say (Deleted resourceType (public_id r)) st1)
      | Inl (err, st1) \<Rightarrow>
          delete_loop e resourceType rs deletedCount (say (FailedToDelete (public_id r)) st1))"

text \<open>
  The \<open>try\<close> block of \<open>cleanupResourceType\<close>. An answer of the listing always has its
  array of resources, so \<open>!result.resources || result.resources.length === 0\<close> is the
  test for the empty array.
\<close>

definition cleanupResourceType_try ::
  "env \<Rightarrow> resource_kind \<Rightarrow> state \<Rightarrow> (error \<times> state) + (nat \<times> state)"
where
  "cleanupResourceType_try e resourceType st =
     (case getResourcesByTag e ''temp_upload'' resourceType st of
        Inl failure \<Rightarrow> Inl failure
      | Inr (result, st1) \<Rightarrow>
          if length (resources result) = 0 then Inr (0, st1)
          else
            (let (expiredResources, st2) = filter_expired e (resources result) st1
             in Inr (delete_loop e resourceType expiredResources 0 st2)))"

text \<open>
  \<open>cleanupResourceType\<close>: the \<open>catch\<close> answers the count, which is still 0 when the
  listing throws, the only call of the block outside the inner \<open>try\<close>.
\<close>

definition cleanupResourceType ::
  "env \<Rightarrow> resource_kind \<Rightarrow> state \<Rightarrow> (error \<times> state) + (nat \<times> state)"
where
  "cleanupResourceType e resourceType st =
     (case cleanupResourceType_try e resourceType st of
        Inl (err, st1) \<Rightarrow> Inr (0, say (ErrorFetching resourceType) st1)
      | Inr done \<Rightarrow> Inr done)"

definition cleanupExpiredFiles_try ::
  "env \<Rightarrow> int \<Rightarrow> state \<Rightarrow> (error \<times> state) + state"
where
  "cleanupExpiredFiles_try e startTime st =
     (case cleanupResourceType e Image st of
        Inl failure \<Rightarrow> Inl failure
      | Inr (imagesDeleted, st1) \<Rightarrow>
          (case cleanupResourceType e Raw st1 of
             Inl failure \<Rightarrow> Inl failure
           | Inr (rawDeleted, st2) \<Rightarrow>
               (let totalDeleted = imagesDeleted + rawDeleted;
                    (t, st3) = now e st2;
                    duration = t - startTime
                in Inr (say (Completed duration totalDeleted imagesDeleted rawDeleted) st3))))"

definition cleanupExpiredFiles :: "env \<Rightarrow> state \<Rightarrow> (error \<times> state) + state" where
  "cleanupExpiredFiles e st =
     (let st0 = say StartingCleanup st;
          (startTime, st1) = now e st0
      in case cleanupExpiredFiles_try e startTime st1 of
           Inl (err, st2) \<Rightarrow> Inr (say JobFailed st2)
         | Inr st2 \<Rightarrow> Inr st2)"

text \<open>
  What the claims say of a sweep: the objects whose deletion succeeds, the console entry
  of one deletion attempt, a list of objects without the objects of the given ids, the
  tagged objects of a kind (the objects of all pages), the listing the scanner returns,
  the number of deletion attempts written to a console, and the console and the store
  after a sweep.
\<close>

definition ok :: "env \<Rightarrow> resource \<Rightarrow> bool" where
  "ok e r \<longleftrightarrow> \<not> destroy_fails e (public_id r)"

definition outcome :: "env \<Rightarrow> resource_kind \<Rightarrow> resource \<Rightarrow> log_entry" where
  "outcome e k r =
     (if destroy_fails e (public_id r) then FailedToDelete (public_id r)
      else Deleted k (public_id r))"

definition without :: "resource list \<Rightarrow> resource list \<Rightarrow> resource list" where
  "without gone rs = filter (\<lambda>x. public_id x \<notin> public_id ` set gone) rs"

definition tagged_objects :: "resource_kind \<Rightarrow> state \<Rightarrow> resource list" where
  "tagged_objects k st = filter (\<lambda>r. ''temp_upload'' \<in> set (tags r)) (store st k)"

definition listed :: "env \<Rightarrow> resource_kind \<Rightarrow> state \<Rightarrow> resource list" where
  "listed e k st =
     (case getResourcesByTag e ''temp_upload'' k st of
        Inl _ \<Rightarrow> []
      | Inr (result, _) \<Rightarrow> resources result)"

fun is_attempt :: "log_entry \<Rightarrow> bool" where
  "is_attempt (Deleted _ _) = True"
| "is_attempt (FailedToDelete _) = True"
| "is_attempt _ = False"

definition attempts :: "log_entry list \<Rightarrow> nat" where
  "attempts entries = length (filter is_attempt entries)"

definition sweep_console :: "env \<Rightarrow> state \<Rightarrow> log_entry list" where
  "sweep_console e st =
     (case cleanupExpiredFiles e st of Inl (_, s) \<Rightarrow> console s | Inr s \<Rightarrow> console s)"

definition sweep_store :: "env \<Rightarrow> state \<Rightarrow> resource_kind \<Rightarrow> resource list" where
  "sweep_store e st =
     (case cleanupExpiredFiles e st of Inl (_, s) \<Rightarrow> store s | Inr s \<Rightarrow> store s)"

text \<open>Sample objects, environments and stores.\<close>

definition r_old :: resource where
  "r_old = \<lparr>public_id = ''old'', tags = [''temp_upload'', ''uploaded_0''], created_at = Some 0\<rparr>"

definition r_new :: resource where
  "r_new = \<lparr>public_id = ''new'', tags = [''temp_upload'', ''uploaded_3000000''],
            created_at = Some 3000000\<rparr>"

definition r_bad :: resource where
  "r_bad = \<lparr>public_id = ''bad'', tags = [''temp_upload'', ''uploaded_1''], created_at = Some 1\<rparr>"

definition e0 :: env where
  "e0 = \<lparr>clock = (\<lambda>k. 3600002 + int k), list_fails = (\<lambda>_. False),
          destroy_fails = (\<lambda>_. False), FILE_TTL_HOURS = 1\<rparr>"

definition e1 :: env where
  "e1 = \<lparr>clock = (\<lambda>k. 3600002 + int k), list_fails = (\<lambda>k. k = Image),
          destroy_fails = (\<lambda>i. i = ''bad''), FILE_TTL_HOURS = 1\<rparr>"

definition s0 :: state where
  "s0 = \<lparr>store = (\<lambda>k. if k = Image then [r_old, r_new] else []), reads = 0, console = []\<rparr>"

definition s1 :: state where
  "s1 = \<lparr>store = (\<lambda>k. if k = Raw then [r_bad, r_new, r_old] else [r_old]), reads = 0,
          console = []\<rparr>"

definition numbered :: "nat \<Rightarrow> resource" where
  "numbered n =
     \<lparr>public_id = replicate (Suc n) (CHR ''x''), tags = [''temp_upload''], created_at = Some 0\<rparr>"

definition s_many :: state where
  "s_many = \<lparr>store = (\<lambda>k. map numbered [0..<501]), reads = 0, console = []\<rparr>"

section \<open>The schedule of the sweeps\<close>

text \<open>
  \<open>startCleanupJob\<close> hands \<open>cleanupExpiredFiles\<close> itself to the scheduler, which calls it
  at every tick and does not wait for the promise it returns. An invocation runs until
  its next \<open>await\<close> and is resumed when the awaited call has answered; between two
  \<open>await\<close>s nothing else runs. A sweep in progress is therefore one of: waiting for the
  listing of a kind, or waiting for the deletion of one expired object with the objects
  still to delete after it. Both carry \<open>startTime\<close> and the count of deleted images.
\<close>

datatype task =
    AwaitListing resource_kind int nat
  | AwaitDelete resource_kind int nat resource "resource list" nat
  | Finished

text \<open>The end of \<open>cleanupResourceType\<close> for one kind: on to the raw files, or the report.\<close>

definition after_kind ::
  "env \<Rightarrow> resource_kind \<Rightarrow> int \<Rightarrow> nat \<Rightarrow> nat \<Rightarrow> state \<Rightarrow> task \<times> state"
where
  "after_kind e resourceType startTime imagesDeleted deletedCount st =
     (case resourceType of
        Image \<Rightarrow> (AwaitListing Raw startTime deletedCount, st)
      | Raw \<Rightarrow>
          (let rawDeleted = deletedCount;
               totalDeleted = imagesDeleted + rawDeleted;
               (t, st1) = now e st;
               duration = t - startTime
           in (Finished, say (Completed duration totalDeleted imagesDeleted rawDeleted) st1)))"

text \<open>The head of the loop over the expired objects.\<close>

definition next_delete ::
  "env \<Rightarrow> resource_kind \<Rightarrow> int \<Rightarrow> nat \<Rightarrow> resource list \<Rightarrow> nat \<Rightarrow> state \<Rightarrow> task \<times> state"
where
  "next_delete e resourceType startTime imagesDeleted expiredResources deletedCount st =
     (case expiredResources of
        [] \<Rightarrow> after_kind e resourceType startTime imagesDeleted deletedCount st
      | r # rs \<Rightarrow> (AwaitDelete resourceType startTime imagesDeleted r rs deletedCount, st))"

text \<open>An invocation of \<open>cleanupExpiredFiles\<close>, up to its first \<open>await\<close>.\<close>

definition invoke :: "env \<Rightarrow> state \<Rightarrow> task \<times> state" where
  "invoke e st =
     (let st0 = say StartingCleanup st;
          (startTime, st1) = now e st0
      in (AwaitListing Image startTime 0, st1))"

text \<open>A sweep resumed at its \<open>await\<close>, up to the next one.\<close>

fun resume :: "env \<Rightarrow> task \<Rightarrow> state \<Rightarrow> task \<times> state" where
  "resume e (AwaitListing resourceType startTime imagesDeleted) st =
     (case getResourcesByTag e ''temp_upload'' resourceType st of
        Inl (err, st1) \<Rightarrow>
          after_kind e resourceType startTime imagesDeleted 0
            (say (ErrorFetching resourceType) st1)
      | Inr (result, st1) \<Rightarrow>
          if length (resources result) = 0
          then after_kind e resourceType startTime imagesDeleted 0 st1
          else
            (let (expiredResources, st2) = filter_expired e (resources result) st1
             in next_delete e resourceType startTime imagesDeleted expiredResources 0 st2))"
| "resume e (AwaitDelete resourceType startTime imagesDeleted r rs deletedCount) st =
     (case deleteResource e (public_id r) resourceType st of
        Inr st1 \<Rightarrow>
          next_delete e resourceType startTime imagesDeleted rs (deletedCount + 1)
            (say (Deleted resourceType (public_id r)) st1)
      | Inl (err, st1) \<Rightarrow>
          next_delete e resourceType startTime imagesDeleted rs deletedCount
            (say (FailedToDelete (public_id r)) st1))"
| "resume e Finished st = (Finished, st)"

text \<open>
  The process: the sweeps invoked so far, in the order of their ticks, and the state they
  share. A tick invokes \<open>cleanupExpiredFiles\<close>; \<open>Resume i\<close> lets the sweep number \<open>i\<close>
  go on to its next \<open>await\<close>.
\<close>

record process =
  tasks :: "task list"
  world :: state

datatype event = Tick | Resume nat

fun fire :: "env \<Rightarrow> process \<Rightarrow> event \<Rightarrow> process" where
  "fire e p Tick =
     (let (t, st) = invoke e (world p) in \<lparr>tasks = tasks p @ [t], world = st\<rparr>)"
| "fire e p (Resume i) =
     (if i < length (tasks p)
      then (let (t, st) = resume e (tasks p ! i) (world p)
            in \<lparr>tasks = (tasks p)[i := t], world = st\<rparr>)
      else p)"

definition run :: "env \<Rightarrow> process \<Rightarrow> event list \<Rightarrow> process" where
  "run e p events = foldl (fire e) p events"

text \<open>The sweeps in progress.\<close>

definition active :: "process \<Rightarrow> nat" where
  "active p = length (filter (\<lambda>t. t \<noteq> Finished) (tasks p))"

text \<open>A sweep resumed \<open>n\<close> times with nothing else running.\<close>

fun resumed :: "env \<Rightarrow> nat \<Rightarrow> task \<times> state \<Rightarrow> task \<times> state" where
  "resumed e 0 c = c"
| "resumed e (Suc n) c = resumed e n (resume e (fst c) (snd c))"

definition r_old2 :: resource where
  "r_old2 = \<lparr>public_id = ''old2'', tags = [''temp_upload'', ''uploaded_2''], created_at = Some 2\<rparr>"

definition p0 :: process where
  "p0 = \<lparr>tasks = [],
          world = \<lparr>store = (\<lambda>k. if k = Image then [r_old, r_old2, r_new] else []),
                    reads = 0, console = []\<rparr>\<rparr>"

definition overlap :: "event list" where
  "overlap = [Tick, Resume 0, Resume 0, Tick, Resume 1, Resume 0, Resume 1]"

section \<open>The split route of the serverless deployment\<close>

text \<open>
  \<open>Number(s)\<close> on a string, as far as its value is an integer or \<open>NaN\<close>: the string is
  trimmed; the empty string is 0; decimal digits with at most one sign, and hexadecimal
  digits after \<open>0x\<close> or \<open>0X\<close>, have their value; a string with a character that occurs
  in no numeric literal (anything but letters, digits, the dot and the two signs) is
  \<open>NaN\<close>. Every other string is either \<open>NaN\<close> or a literal with a fraction, an exponent,
  a binary or octal prefix, or \<open>Infinity\<close>: the model gives it no value (\<open>None\<close>), and a
  request that needs one is outside the model.
\<close>

definition all_digits :: "nat \<Rightarrow> string \<Rightarrow> bool" where
  "all_digits radix s \<longleftrightarrow> s \<noteq> [] \<and> list_all (\<lambda>c. digit_of radix c \<noteq> None) s"

definition literal_char :: "char \<Rightarrow> bool" where
  "literal_char c \<longleftrightarrow>
     (let n = (of_char c :: nat)
      in (48 \<le> n \<and> n \<le> 57) \<or> (65 \<le> n \<and> n \<le> 90) \<or> (97 \<le> n \<and> n \<le> 122)
         \<or> c = CHR ''.'' \<or> c = CHR ''+'' \<or> c = CHR ''-'')"

definition unsigned_Number :: "string \<Rightarrow> int option option" where
  "unsigned_Number t =
     (if all_digits 10 t then Some (Some (int (digits_value 10 (digits_prefix 10 t))))
      else
        (case t of
           z # x # hexdigits \<Rightarrow>
             if z = CHR ''0'' \<and> (x = CHR ''x'' \<or> x = CHR ''X'') \<and> all_digits 16 hexdigits
             then Some (Some (int (digits_value 16 (digits_prefix 16 hexdigits))))
             else None
         | _ \<Rightarrow> None))"

definition js_Number :: "string \<Rightarrow> int option option" where
  "js_Number s =
     (let t = trim s
      in if t = [] then Some (Some 0)
         else if \<not> list_all literal_char t then Some None
         else
           (case t of
              [] \<Rightarrow> Some (Some 0)
            | c # r \<Rightarrow>
                if c = CHR ''+'' \<and> all_digits 10 r
                  then Some (Some (int (digits_value 10 (digits_prefix 10 r))))
                else if c = CHR ''-'' \<and> all_digits 10 r
                  then Some (Some (- int (digits_value 10 (digits_prefix 10 r))))
                else unsigned_Number t))"

text \<open>\<open>const [start, end] = ....map(Number)\<close>: a missing element is \<open>undefined\<close>.\<close>

definition number_at :: "int option option list \<Rightarrow> nat \<Rightarrow> int option option" where
  "number_at xs k = (if k < length xs then xs ! k else Some None)"

text \<open>\<open>for (let i = start; i <= end; i++) pageNums.push(i - 1)\<close>, on two integers.\<close>

definition push_range :: "int \<Rightarrow> int \<Rightarrow> int option list" where
  "push_range start end = map (\<lambda>i. Some (i - 1)) [start..end]"

text \<open>
  The page numbers of one range of the request: \<open>None\<close> when a bound is outside the model
  of \<open>Number\<close>. An entry \<open>None\<close> of the list is \<open>NaN\<close>.
\<close>

definition pageNums_of :: "string \<Rightarrow> int option list option" where
  "pageNums_of rng =
     (if str_includes rng (CHR ''-'') then
        (let ns = map js_Number (js_split (CHR ''-'') rng)
         in case (number_at ns 0, number_at ns 1) of
              (Some start, Some end) \<Rightarrow>
                (case (start, end) of
                   (Some s, Some e) \<Rightarrow> Some (push_range s e)
                 | _ \<Rightarrow> Some [])
            | _ \<Rightarrow> None)
      else
        Some (map (\<lambda>p. map_option (\<lambda>n. n - 1) (parseInt p)) (js_split (CHR '','') rng)))"

text \<open>\<open>copyPages\<close> on numbers: \<open>NaN\<close> is not a page of the source.\<close>

definition copyPages_numbers :: "'p list \<Rightarrow> int option list \<Rightarrow> error + 'p list" where
  "copyPages_numbers src nums =
     (if list_all (\<lambda>n. n \<noteq> None) nums then copyPages src (map the nums)
      else Inl PageIndexError)"

text \<open>
  The body of \<open>for (const range of pageRanges)\<close>; the upload of each output to the object
  store is left out (it is taken to succeed). \<open>None\<close>: the request is outside the model.
\<close>

fun api_split_loop ::
  "'p list \<Rightarrow> 'p split_result list \<Rightarrow> string list \<Rightarrow> (error + 'p split_result list) option"
where
  "api_split_loop sourcePdf results [] = Some (Inr results)"
| "api_split_loop sourcePdf results (rng # rest) =
     (case pageNums_of rng of
        None \<Rightarrow> None
      | Some pageNums \<Rightarrow>
          (case copyPages_numbers sourcePdf pageNums of
             Inl e \<Rightarrow> Some (Inl e)
           | Inr copied \<Rightarrow>
               api_split_loop sourcePdf
                 (results @
                   [\<lparr>buffer = save (foldl addPage [] copied),
                     pages = rng,
                     pageCount = length pageNums\<rparr>])
                 rest))"

text \<open>
  The handler of \<open>POST /api/pdf/split\<close> in \<open>api/index.js\<close>, for a request with a file
  and a \<open>pages\<close> string; whatever is thrown is answered \<open>Failed to split PDF\<close>.
\<close>

definition api_split :: "'p buffer \<Rightarrow> string \<Rightarrow> (error + 'p split_result list) option" where
  "api_split fileBuffer pagesText =
     (case load fileBuffer of
        Inl e \<Rightarrow> Some (Inl FailedToSplit)
      | Inr sourcePdf \<Rightarrow>
          (let pageRanges = map trim (js_split (CHR '';'') pagesText)
           in case api_split_loop sourcePdf [] pageRanges of
                None \<Rightarrow> None
              | Some (Inl e) \<Rightarrow> Some (Inl FailedToSplit)
              | Some (Inr results) \<Rightarrow> Some (Inr results)))"

section \<open>Properties of the page-range parser\<close>

lemma set_add_set: "set (set_add ps x) = insert x (set ps)"
  by (auto simp: set_add_def)

lemma set_add_distinct: "distinct ps \<Longrightarrow> distinct (set_add ps x)"
  by (simp add: set_add_def)

lemma range_loop_step:
  "js_le (Some i) e \<and> i \<le> t \<Longrightarrow>
   range_loop i e t ps =
     range_loop (i + 1) e t (if i \<ge> 1 then set_add ps (i - 1) else ps)"
  by (subst range_loop.simps) simp

lemma range_loop_stop:
  "\<not> (js_le (Some i) e \<and> i \<le> t) \<Longrightarrow> range_loop i e t ps = ps"
  by (subst range_loop.simps) auto

lemma range_loop_set:
  "set (range_loop i e t ps) =
     set ps \<union> (\<lambda>j. j - 1) ` {j. i \<le> j \<and> js_le (Some j) e \<and> j \<le> t \<and> 1 \<le> j}"
proof (induction i e t ps rule: range_loop.induct)
  case (1 i e t ps)
  show ?case
  proof (cases "js_le (Some i) e \<and> i \<le> t")
    case True
    have split: "{j. i \<le> j \<and> js_le (Some j) e \<and> j \<le> t \<and> 1 \<le> j} =
        (if 1 \<le> i then {i} else {}) \<union> {j. i + 1 \<le> j \<and> js_le (Some j) e \<and> j \<le> t \<and> 1 \<le> j}"
      using True by (auto simp: order_less_le)
    show ?thesis
      unfolding range_loop_step [OF True] "1.IH" [OF True] split
      by (auto simp: set_add_set)
  next
    case False
    have none: "{j. i \<le> j \<and> js_le (Some j) e \<and> j \<le> t \<and> 1 \<le> j} = {}"
      using False by (auto simp: js_le_def split: option.splits)
    show ?thesis
      unfolding range_loop_stop [OF False] none by simp
  qed
qed

lemma range_loop_distinct: "distinct ps \<Longrightarrow> distinct (range_loop i e t ps)"
proof (induction i e t ps rule: range_loop.induct)
  case (1 i e t ps)
  show ?case
  proof (cases "js_le (Some i) e \<and> i \<le> t")
    case True
    have "distinct (if i \<ge> 1 then set_add ps (i - 1) else ps)"
      using "1.prems" by (simp add: set_add_distinct)
    then show ?thesis
      unfolding range_loop_step [OF True] by (rule "1.IH" [OF True])
  next
    case False
    with "1.prems" show ?thesis
      by (simp add: range_loop_stop)
  qed
qed

lemma element_0: "element (x # xs) 0 = x"
  by (simp add: element_def)

lemma element_1: "element (x # y # xs) (Suc 0) = y"
  by (simp add: element_def)

lemma js_split_not_Nil: "js_split sep s \<noteq> []"
  by (induction s) (auto split: list.splits)

lemma js_split_two: "sep \<in> set s \<Longrightarrow> \<exists>a b rest. js_split sep s = a # b # rest"
proof (induction s)
  case Nil
  then show ?case by simp
next
  case (Cons c cs)
  show ?case
  proof (cases "c = sep")
    case True
    then show ?thesis
      using js_split_not_Nil [of sep cs] by (cases "js_split sep cs") auto
  next
    case False
    with Cons obtain a b rest where "js_split sep cs = a # b # rest" by auto
    with False show ?thesis by simp
  qed
qed

lemma parse_part_set:
  "set (parse_part t ps part) = set ps \<union> spec_atom_pages t part"
proof (cases "str_includes part (CHR ''-'')")
  case True
  then obtain a b rest where sp: "js_split (CHR ''-'') part = a # b # rest"
    using js_split_two [of "CHR ''-''" part] by (auto simp: str_includes_def)
  show ?thesis
  proof (cases "parseInt (trim a)")
    case None
    with True sp show ?thesis
      by (simp add: parse_part_def spec_atom_pages_def element_def)
  next
    case (Some s)
    show ?thesis
    proof (cases "parseInt (trim b)")
      case None
      have "range_loop s None t ps = ps"
        by (rule range_loop_stop) (simp add: js_le_def)
      with True sp Some None show ?thesis
        by (simp add: parse_part_def spec_atom_pages_def element_def)
    next
      case (Some e)
      have "{j. s \<le> j \<and> js_le (Some j) (Some e) \<and> j \<le> t \<and> 1 \<le> j} =
            {i \<in> {s..e}. 1 \<le> i \<and> i \<le> t}"
        by (auto simp: js_le_def)
      with True sp \<open>parseInt (trim a) = Some s\<close> Some show ?thesis
        by (simp add: parse_part_def spec_atom_pages_def element_def range_loop_set)
    qed
  qed
next
  case False
  then show ?thesis
    by (auto simp: parse_part_def spec_atom_pages_def set_add_set split: option.splits)
qed

lemma parse_part_distinct: "distinct ps \<Longrightarrow> distinct (parse_part t ps part)"
  by (auto simp: parse_part_def Let_def range_loop_distinct set_add_distinct split: option.splits)

lemma foldl_parse_part_set:
  "set (foldl (parse_part t) ps parts) = set ps \<union> (\<Union>atom \<in> set parts. spec_atom_pages t atom)"
  by (induction parts arbitrary: ps) (auto simp: parse_part_set)

lemma foldl_parse_part_distinct:
  "distinct ps \<Longrightarrow> distinct (foldl (parse_part t) ps parts)"
  by (induction parts arbitrary: ps) (auto simp: parse_part_distinct)



lemma parsePageRange_set:
  "set (parsePageRange expression t) = (\<Union>atom \<in> set (atoms expression). spec_atom_pages t atom)"
  by (simp add: parsePageRange_def atoms_def foldl_parse_part_set)

lemma parsePageRange_distinct: "distinct (parsePageRange expression t)"
  by (simp add: parsePageRange_def foldl_parse_part_distinct)

lemma parsePageRange_sorted: "sorted (parsePageRange expression t)"
  by (simp add: parsePageRange_def)

lemma spec_atom_pages_bounds: "i \<in> spec_atom_pages t atom \<Longrightarrow> 0 \<le> i \<and> i < t"
  by (auto simp: spec_atom_pages_def split: if_splits list.splits option.splits)

lemma parsePageRange_bounds: "i \<in> set (parsePageRange expression t) \<Longrightarrow> 0 \<le> i \<and> i < t"
  unfolding parsePageRange_set using spec_atom_pages_bounds by blast









lemma not_digit_chars:
  "\<not> is_digit (CHR ''-'')" "\<not> is_digit (CHR ''+'')" "\<not> is_digit (CHR ''x'')"
  "\<not> is_digit (CHR ''X'')"
  by (simp_all add: is_digit_def)





lemma js_split_no_sep: "sep \<notin> set s \<Longrightarrow> js_split sep s = [s]"
  by (induction s) auto







lemma page_atom_no_dash: "page_atom atom = Some p \<Longrightarrow> \<not> str_includes atom (CHR ''-'')"
proof
  assume p: "page_atom atom = Some p" and "str_includes atom (CHR ''-'')"
  then have "CHR ''-'' \<in> set atom" and "list_all is_digit atom"
    by (auto simp: str_includes_def page_atom_def split: if_splits)
  then have "is_digit (CHR ''-'')"
    by (auto simp: list_all_iff)
  then show False
    by (simp add: not_digit_chars)
qed



lemma range_atom_fields:
  assumes "range_atom atom = Some (lo, hi)"
  shows "\<exists>a b. js_split (CHR ''-'') atom = [a, b] \<and> page_atom (trim a) = Some lo
           \<and> page_atom (trim b) = Some hi \<and> str_includes atom (CHR ''-'')"
proof -
  from assms obtain a b where sp: "js_split (CHR ''-'') atom = [a, b]"
    and pa: "page_atom (trim a) = Some lo" and pb: "page_atom (trim b) = Some hi"
    by (auto simp: range_atom_def split: list.splits option.splits)
  have "str_includes atom (CHR ''-'')"
  proof (rule ccontr)
    assume "\<not> str_includes atom (CHR ''-'')"
    then have "js_split (CHR ''-'') atom = [atom]"
      by (simp add: str_includes_def js_split_no_sep)
    with sp show False by simp
  qed
  with sp pa pb show ?thesis by blast
qed



lemma range_not_page: "range_atom atom = Some r \<Longrightarrow> page_atom atom = None"
proof (cases r)
  case (Pair lo hi)
  assume "range_atom atom = Some r"
  with Pair have "str_includes atom (CHR ''-'')"
    using range_atom_fields by blast
  then show ?thesis
    using page_atom_no_dash [of atom] by (cases "page_atom atom") auto
qed


















section \<open>Properties of merge, split and reorder\<close>

lemma foldl_addPage: "foldl addPage doc ps = doc @ ps"
  by (induction ps arbitrary: doc) (simp_all add: addPage_def)

lemma copyPages_all: "copyPages doc (getPageIndices doc) = Inr doc"
proof -
  have "list_all (\<lambda>i. 0 \<le> i \<and> i < int (length doc)) (map int [0..<length doc])"
    by (simp add: list_all_iff)
  moreover have "map (\<lambda>i. doc ! nat i) (map int [0..<length doc]) = doc"
    by (simp add: map_nth o_def)
  ultimately show ?thesis
    by (simp add: copyPages_def getPageIndices_def)
qed

lemma merge_loop_eq:
  "merge_loop acc bufs =
     (if NotPdf \<in> set bufs then Inl MalformedDocument
      else Inr (acc @ concat (map pages_of bufs)))"
proof (induction bufs arbitrary: acc)
  case Nil
  then show ?case by simp
next
  case (Cons b bufs)
  show ?case
  proof (cases b)
    case (Pdf ps)
    then show ?thesis
      by (simp add: Cons.IH copyPages_all foldl_addPage)
  next
    case NotPdf
    then show ?thesis by simp
  qed
qed

lemma copyPages_in_range:
  "\<forall>i \<in> set idx. 0 \<le> i \<and> i < int (length doc) \<Longrightarrow>
   copyPages doc idx = Inr (map (\<lambda>i. doc ! nat i) idx)"
  by (simp add: copyPages_def list_all_iff)

lemma copyPages_parsePageRange:
  "copyPages doc (parsePageRange g (int (length doc))) =
     Inr (map (\<lambda>i. doc ! nat i) (parsePageRange g (int (length doc))))"
  by (rule copyPages_in_range) (use parsePageRange_bounds in blast)

lemma split_loop_eq:
  "split_loop doc (int (length doc)) results gs =
     Inr (results @ map (group_result doc)
            (filter (\<lambda>g. parsePageRange g (int (length doc)) \<noteq> []) gs))"
proof (induction gs arbitrary: results)
  case Nil
  then show ?case by simp
next
  case (Cons g gs)
  show ?case
  proof (cases "parsePageRange g (int (length doc)) = []")
    case True
    then show ?thesis by (simp add: Cons.IH)
  next
    case False
    then show ?thesis
      by (simp add: Cons.IH copyPages_parsePageRange foldl_addPage save_def group_result_def
            Let_def)
  qed
qed

lemma splitPdf_eq:
  "splitPdf (Pdf doc) pageRanges = Inr (map (group_result doc) (nonempty_groups doc pageRanges))"
  by (simp add: splitPdf_def getPageCount_def split_loop_eq nonempty_groups_def)

lemma splitDocument_eq:
  "splitDocument (Pdf doc) pageRanges =
     (if nonempty_groups doc pageRanges = [] then Inl NoValidPages
      else Inr (map (group_result doc) (nonempty_groups doc pageRanges)))"
  by (simp add: splitDocument_def splitPdf_eq)

lemma nonempty_groups_Nil_iff:
  "nonempty_groups doc pageRanges = [] \<longleftrightarrow>
     (\<forall>g \<in> set (groups_of pageRanges). parsePageRange g (int (length doc)) = [])"
  by (simp add: nonempty_groups_def filter_empty_conv)


text \<open>
  Claim C2. For a source document and a request string, \<open>splitPdf\<close> gives one output per
  group that selects at least one page, in the order of the groups, each depending on its
  own group only: the pages of the group in ascending index order (the indices are sorted,
  distinct and inside the document), the group's text and its page count. A group that
  selects nothing is left out and does not fail the call. The split operation fails with
  \<open>NoValidPages\<close> exactly when every group selects nothing, and otherwise returns what
  \<open>splitPdf\<close> returns; the group \<open>99\<close> on five pages gives no output and fails so.
\<close>

theorem C2_splitPdf_groups:
  "splitPdf (Pdf doc) pageRanges = Inr (map (group_result doc) (nonempty_groups doc pageRanges))
   \<and> (splitDocument (Pdf doc) pageRanges = Inl NoValidPages \<longleftrightarrow>
        (\<forall>g \<in> set (groups_of pageRanges). parsePageRange g (int (length doc)) = []))
   \<and> (splitDocument (Pdf doc) pageRanges \<noteq> Inl NoValidPages \<longrightarrow>
        splitDocument (Pdf doc) pageRanges = splitPdf (Pdf doc) pageRanges)
   \<and> sorted (parsePageRange g (int (length doc)))
   \<and> distinct (parsePageRange g (int (length doc)))
   \<and> (\<forall>i \<in> set (parsePageRange g (int (length doc))). 0 \<le> i \<and> i < int (length doc))
   \<and> splitPdf (Pdf [a, b, c, d, e]) ''99'' = Inr []
   \<and> splitDocument (Pdf [a, b, c, d, e]) ''99'' = Inl NoValidPages"
proof (intro conjI)
  show "splitPdf (Pdf doc) pageRanges =
      Inr (map (group_result doc) (nonempty_groups doc pageRanges))"
    by (rule splitPdf_eq)
  show "splitDocument (Pdf doc) pageRanges = Inl NoValidPages \<longleftrightarrow>
        (\<forall>g \<in> set (groups_of pageRanges). parsePageRange g (int (length doc)) = [])"
    by (simp add: splitDocument_eq nonempty_groups_Nil_iff)
  show "splitDocument (Pdf doc) pageRanges \<noteq> Inl NoValidPages \<longrightarrow>
        splitDocument (Pdf doc) pageRanges = splitPdf (Pdf doc) pageRanges"
    by (simp add: splitDocument_eq splitPdf_eq)
  show "sorted (parsePageRange g (int (length doc)))"
    by (rule parsePageRange_sorted)
  show "distinct (parsePageRange g (int (length doc)))"
    by (rule parsePageRange_distinct)
  show "\<forall>i \<in> set (parsePageRange g (int (length doc))). 0 \<le> i \<and> i < int (length doc)"
    using parsePageRange_bounds by blast
  have n: "nonempty_groups [a, b, c, d, e] ''99'' = []"
    by code_simp
  show "splitPdf (Pdf [a, b, c, d, e]) ''99'' = Inr []"
    by (simp add: splitPdf_eq n)
  show "splitDocument (Pdf [a, b, c, d, e]) ''99'' = Inl NoValidPages"
    by (simp add: splitDocument_eq n)
qed

theorem C2_splitPdf_groups_witness:
  "splitPdf (Pdf ''abcde'') ''1-2; 99 ;;5,4'' =
     Inr [\<lparr>buffer = Pdf ''ab'', pages = ''1-2'', pageCount = 2\<rparr>,
          \<lparr>buffer = Pdf ''de'', pages = ''5,4'', pageCount = 2\<rparr>]
   \<and> splitDocument (Pdf ''abcde'') ''99;0-0'' = Inl NoValidPages"
proof -
  have r: "map (group_result ''abcde'') (nonempty_groups ''abcde'' ''1-2; 99 ;;5,4'') =
     [\<lparr>buffer = Pdf ''ab'', pages = ''1-2'', pageCount = 2\<rparr>,
      \<lparr>buffer = Pdf ''de'', pages = ''5,4'', pageCount = 2\<rparr>]"
    by code_simp
  have e: "\<forall>g \<in> set (groups_of ''99;0-0''). parsePageRange g (int (length ''abcde'')) = []"
    by code_simp
  have "splitPdf (Pdf ''abcde'') ''1-2; 99 ;;5,4'' =
     Inr [\<lparr>buffer = Pdf ''ab'', pages = ''1-2'', pageCount = 2\<rparr>,
          \<lparr>buffer = Pdf ''de'', pages = ''5,4'', pageCount = 2\<rparr>]"
    using C2_splitPdf_groups [of "''abcde''" "''1-2; 99 ;;5,4''", THEN conjunct1] r by simp
  moreover have "splitDocument (Pdf ''abcde'') ''99;0-0'' = Inl NoValidPages"
    using C2_splitPdf_groups [of "''abcde''" "''99;0-0''", THEN conjunct2, THEN conjunct1] e by simp
  ultimately show ?thesis by (rule conjI)
qed


text \<open>
  Claim C3. \<open>reorderPdfPages\<close> on a document keeps the entries of the order that lie in
  \<open>[1, totalPages]\<close>, in the order and with the repetitions the caller gave, and builds the
  document of exactly those pages; the other entries are dropped; it fails with
  \<open>InvalidPageOrder\<close> exactly when nothing is kept. \<open>[3,1,2,4]\<close> on four pages puts the
  third page first.
\<close>

theorem C3_reorderPdfPages_keeps_order:
  "reorderPdfPages (Pdf doc) order =
     (let kept = filter (\<lambda>n. 1 \<le> n \<and> n \<le> int (length doc)) order
      in if kept = [] then Inl InvalidPageOrder
         else Inr (Pdf (map (\<lambda>n. doc ! nat (n - 1)) kept)))
   \<and> reorderPdfPages (Pdf [a, b, c, d]) [3, 1, 2, 4] = Inr (Pdf [c, a, b, d])
   \<and> reorderPdfPages (Pdf [a, b]) [2, 7, 2, 0, 1] = Inr (Pdf [b, b, a])"
proof (intro conjI)
  show g: "reorderPdfPages (Pdf doc) order =
     (let kept = filter (\<lambda>n. 1 \<le> n \<and> n \<le> int (length doc)) order
      in if kept = [] then Inl InvalidPageOrder
         else Inr (Pdf (map (\<lambda>n. doc ! nat (n - 1)) kept)))" for doc :: "'p list" and order
  proof -
    let ?kept = "filter (\<lambda>n. 1 \<le> n \<and> n \<le> int (length doc)) order"
    have "\<forall>i \<in> set (map (\<lambda>n. n - 1) ?kept). 0 \<le> i \<and> i < int (length doc)"
      by auto
    then have "copyPages doc (map (\<lambda>n. n - 1) ?kept) = Inr (map (\<lambda>n. doc ! nat (n - 1)) ?kept)"
      by (simp add: copyPages_in_range o_def)
    then show ?thesis
      by (simp add: reorderPdfPages_def getPageCount_def Let_def foldl_addPage save_def)
  qed
  show "reorderPdfPages (Pdf [a, b, c, d]) [3, 1, 2, 4] = Inr (Pdf [c, a, b, d])"
    by (simp add: g)
  show "reorderPdfPages (Pdf [a, b]) [2, 7, 2, 0, 1] = Inr (Pdf [b, b, a])"
    by (simp add: g)
qed

theorem C3_reorderPdfPages_keeps_order_witness:
  "reorderPdfPages (Pdf ''abcd'') [3, 1, 2, 4] = Inr (Pdf ''cabd'')
   \<and> reorderPdfPages (Pdf ''abcd'') [0, 5, 9] = Inl InvalidPageOrder"
proof -
  have "reorderPdfPages (Pdf ''abcd'') [3, 1, 2, 4] = Inr (Pdf ''cabd'')"
    using C3_reorderPdfPages_keeps_order [of "''abcd''" "[3, 1, 2, 4]", THEN conjunct1] by simp
  moreover have "reorderPdfPages (Pdf ''abcd'') [0, 5, 9] = Inl InvalidPageOrder"
    using C3_reorderPdfPages_keeps_order [of "''abcd''" "[0, 5, 9]", THEN conjunct1] by simp
  ultimately show ?thesis by (rule conjI)
qed


text \<open>
  Claim C4. \<open>mergePdfs\<close> fails with \<open>MalformedDocument\<close> when a buffer is not a document;
  otherwise its result holds the pages of the inputs, each in its own order, in the order
  of the inputs, none left out or moved, so that the page count is the sum of the inputs'.
\<close>

theorem C4_mergePdfs_concatenates:
  "mergePdfs pdfBuffers =
     (if NotPdf \<in> set pdfBuffers then Inl MalformedDocument
      else Inr (Pdf (concat (map pages_of pdfBuffers))))
   \<and> mergePdfs (map Pdf docs) = Inr (Pdf (concat docs))
   \<and> length (concat docs) = sum_list (map length docs)"
proof (intro conjI)
  show a: "mergePdfs pdfBuffers =
     (if NotPdf \<in> set pdfBuffers then Inl MalformedDocument
      else Inr (Pdf (concat (map pages_of pdfBuffers))))" for pdfBuffers :: "'p buffer list"
    by (simp add: mergePdfs_def merge_loop_eq save_def)
  have "map pages_of (map Pdf docs) = docs"
    by (induction docs) simp_all
  moreover have "NotPdf \<notin> set (map Pdf docs)"
    by auto
  ultimately show "mergePdfs (map Pdf docs) = Inr (Pdf (concat docs))"
    by (simp only: a if_False)
  show "length (concat docs) = sum_list (map length docs)"
    by (simp add: length_concat)
qed

theorem C4_mergePdfs_concatenates_witness:
  "mergePdfs [Pdf ''ab'', Pdf '''', Pdf ''cde''] = Inr (Pdf ''abcde'')
   \<and> mergePdfs [Pdf ''ab'', NotPdf, Pdf ''cde''] = Inl MalformedDocument"
proof -
  have "mergePdfs [Pdf ''ab'', Pdf '''', Pdf ''cde''] = Inr (Pdf ''abcde'')"
    using C4_mergePdfs_concatenates [of "[Pdf ''ab'', Pdf '''', Pdf ''cde'']" "[]", THEN conjunct1] by simp
  moreover have "mergePdfs [Pdf ''ab'', NotPdf, Pdf ''cde''] = Inl MalformedDocument"
    using C4_mergePdfs_concatenates [of "[Pdf ''ab'', NotPdf, Pdf ''cde'']" "[]", THEN conjunct1] by simp
  ultimately show ?thesis by (rule conjI)
qed

section \<open>Properties of the retention sweep\<close>

lemma without_Nil: "without [] rs = rs"
  by (simp add: without_def)

lemma without_Cons:
  "without (r # gone) rs = without gone (filter (\<lambda>x. public_id x \<noteq> public_id r) rs)"
  by (induction rs) (auto simp: without_def)

lemma if_same_key:
  "(\<lambda>a. if a = k then x else if a = k then y else f a) = (\<lambda>a. if a = k then x else f a)"
  by auto

lemma delete_loop_eq:
  "delete_loop e k rs n st =
     (n + length (filter (ok e) rs),
      st\<lparr>store := (store st)(k := without (filter (ok e) rs) (store st k)),
         console := console st @ map (outcome e k) rs\<rparr>)"
proof (induction rs arbitrary: n st)
  case Nil
  then show ?case by (simp add: without_Nil)
next
  case (Cons r rs)
  show ?case
  proof (cases "destroy_fails e (public_id r)")
    case True
    then show ?thesis
      by (simp add: Cons.IH deleteResource_def destroy_def say_def ok_def outcome_def)
  next
    case False
    then have step: "deleteResource e (public_id r) k st =
        Inr (st\<lparr>store := (store st)(k := filter (\<lambda>x. public_id x \<noteq> public_id r) (store st k))\<rparr>)"
      by (simp add: deleteResource_def destroy_def)
    from False show ?thesis
      by (simp add: step Cons.IH say_def ok_def outcome_def without_Cons if_same_key)
  qed
qed

lemma listed_eq: "\<not> list_fails e k \<Longrightarrow> listed e k st = take 500 (tagged_objects k st)"
  by (simp add: listed_def getResourcesByTag_def resources_by_tag_def tagged_objects_def Let_def)

text \<open>
  Against claim C8 as it is stated: with 501 tagged images in the store, the listing of
  the scanner holds 500 of them, not the objects of all pages: the last tagged image is
  not in it.
\<close>

theorem C8_listing_single_page_counterexample:
  "length (tagged_objects Image s_many) = 501
   \<and> length (listed e0 Image s_many) = 500
   \<and> numbered 500 \<in> set (tagged_objects Image s_many)
   \<and> numbered 500 \<notin> set (listed e0 Image s_many)"
proof -
  have "\<forall>r \<in> set (map numbered [0..<501]). ''temp_upload'' \<in> set (tags r)"
    by (simp add: numbered_def)
  then have t: "tagged_objects Image s_many = map numbered [0..<501]"
    unfolding tagged_objects_def s_many_def by (simp only: state.simps filter_True)
  have "\<not> list_fails e0 Image"
    by (simp add: e0_def)
  then have "listed e0 Image s_many = take 500 (tagged_objects Image s_many)"
    by (rule listed_eq)
  then have "listed e0 Image s_many = take 500 (map numbered [0..<501])"
    unfolding t .
  then have l: "listed e0 Image s_many = map numbered [0..<500]"
    by (simp add: take_map)
  have inj: "numbered m = numbered n \<Longrightarrow> m = n" for m n
  proof -
    assume "numbered m = numbered n"
    then have "length (public_id (numbered m)) = length (public_id (numbered n))"
      by simp
    then show "m = n"
      by (simp add: numbered_def)
  qed
  have out: "numbered 500 \<notin> set (map numbered [0..<500])"
  proof
    assume "numbered 500 \<in> set (map numbered [0..<500])"
    then obtain n where "n < 500" and "numbered 500 = numbered n"
      by auto
    then show False
      using inj by fastforce
  qed
  have inside: "numbered 500 \<in> set (map numbered [0..<501])"
    by simp
  show ?thesis
    unfolding t l using out inside by simp
qed

text \<open>
  Claim C8, amended. \<open>getResourcesByTag\<close> makes one request to the provider, with the page
  size 500, and returns the objects of that first page: the first 500 tagged objects in the
  provider's order, never more than 500, and all the tagged objects only when there are at
  most 500 of them. The cursor of the answer is not followed. A failing request throws.
\<close>

theorem C8_listing_first_page:
  "(\<not> list_fails e k \<longrightarrow> listed e k st = take 500 (tagged_objects k st))
   \<and> length (listed e k st) \<le> 500
   \<and> (\<not> list_fails e k \<and> length (tagged_objects k st) \<le> 500 \<longrightarrow>
        listed e k st = tagged_objects k st)
   \<and> (list_fails e k \<longrightarrow>
        getResourcesByTag e ''temp_upload'' k st = Inl (UpstreamUnavailable, st))"
proof (intro conjI impI)
  show "listed e k st = take 500 (tagged_objects k st)" if "\<not> list_fails e k"
    using that by (rule listed_eq)
  show "length (listed e k st) \<le> 500"
    by (cases "list_fails e k")
      (simp_all add: listed_eq, simp add: listed_def getResourcesByTag_def resources_by_tag_def)
  show "listed e k st = tagged_objects k st"
    if "\<not> list_fails e k \<and> length (tagged_objects k st) \<le> 500"
    using that by (simp add: listed_eq)
  show "getResourcesByTag e ''temp_upload'' k st = Inl (UpstreamUnavailable, st)"
    if "list_fails e k"
    using that by (simp add: getResourcesByTag_def resources_by_tag_def)
qed

theorem C8_listing_first_page_witness:
  "listed e0 Image s0 = [r_old, r_new]
   \<and> getResourcesByTag e1 ''temp_upload'' Image s1 = Inl (UpstreamUnavailable, s1)"
proof -
  have a: "\<not> list_fails e0 Image \<and> length (tagged_objects Image s0) \<le> 500"
    by (simp add: e0_def tagged_objects_def s0_def r_old_def r_new_def)
  have t: "tagged_objects Image s0 = [r_old, r_new]"
    by (simp add: tagged_objects_def s0_def r_old_def r_new_def)
  have b: "list_fails e1 Image"
    by (simp add: e1_def)
  show ?thesis
    using C8_listing_first_page [of e0 Image s0] C8_listing_first_page [of e1 Image s1] a b t by simp
qed

lemma cleanupResourceType_list_fails:
  "list_fails e k \<Longrightarrow> cleanupResourceType e k st = Inr (0, say (ErrorFetching k) st)"
  by (simp add: cleanupResourceType_def cleanupResourceType_try_def getResourcesByTag_def
        resources_by_tag_def)

lemma cleanupResourceType_listed:
  "\<not> list_fails e k \<Longrightarrow>
   cleanupResourceType e k st =
     (if listed e k st = [] then Inr (0, st)
      else Inr (delete_loop e k (fst (filter_expired e (listed e k st) st)) 0
                  (snd (filter_expired e (listed e k st) st))))"
  by (simp add: cleanupResourceType_def cleanupResourceType_try_def getResourcesByTag_def
        resources_by_tag_def listed_def Let_def split: prod.splits)

lemma cleanupResourceType_returns: "\<exists>n s. cleanupResourceType e k st = Inr (n, s)"
proof (cases "list_fails e k")
  case True
  then show ?thesis by (simp add: cleanupResourceType_list_fails)
next
  case False
  then show ?thesis
    by (cases "delete_loop e k (fst (filter_expired e (listed e k st) st)) 0
                  (snd (filter_expired e (listed e k st) st))")
       (simp add: cleanupResourceType_listed)
qed

lemma cleanupExpiredFiles_both_kinds:
  "\<exists>i sa r sb.
     cleanupResourceType e Image (snd (now e (say StartingCleanup st))) = Inr (i, sa)
     \<and> cleanupResourceType e Raw sa = Inr (r, sb)
     \<and> cleanupExpiredFiles e st =
         Inr (say (Completed (fst (now e sb) - clock e (reads st)) (i + r) i r) (snd (now e sb)))"
proof -
  let ?s1 = "snd (now e (say StartingCleanup st))"
  obtain i sa where a: "cleanupResourceType e Image ?s1 = Inr (i, sa)"
    using cleanupResourceType_returns by blast
  obtain r sb where b: "cleanupResourceType e Raw sa = Inr (r, sb)"
    using cleanupResourceType_returns by blast
  have "cleanupExpiredFiles e st =
      Inr (say (Completed (fst (now e sb) - clock e (reads st)) (i + r) i r) (snd (now e sb)))"
    using a b
    by (simp add: cleanupExpiredFiles_def cleanupExpiredFiles_try_def now_def say_def Let_def)
  with a b show ?thesis by blast
qed

text \<open>
  Claim C6. In the deletion loop every expired object gets its attempt, in order, whatever
  happened to the ones before it: a failing deletion is written to the console and leaves
  the object in the store, every other expired object is deleted and counted. A failing
  listing makes \<open>cleanupResourceType\<close> answer 0 for that kind, with one console entry and
  the store as it was; otherwise it deletes the expired objects of the listing. A sweep
  runs \<open>cleanupResourceType\<close> for the images and then for the raw files, whatever the
  first answered, and always returns: it never throws.
\<close>

theorem C6_sweep_failures_local:
  "delete_loop e k rs n st =
     (n + length (filter (ok e) rs),
      st\<lparr>store := (store st)(k := without (filter (ok e) rs) (store st k)),
         console := console st @ map (outcome e k) rs\<rparr>)
   \<and> (list_fails e k \<longrightarrow> cleanupResourceType e k st = Inr (0, say (ErrorFetching k) st))
   \<and> (\<not> list_fails e k \<longrightarrow>
        cleanupResourceType e k st =
          (if listed e k st = [] then Inr (0, st)
           else Inr (delete_loop e k (fst (filter_expired e (listed e k st) st)) 0
                       (snd (filter_expired e (listed e k st) st)))))
   \<and> (\<exists>i sa r sb.
        cleanupResourceType e Image (snd (now e (say StartingCleanup st))) = Inr (i, sa)
        \<and> cleanupResourceType e Raw sa = Inr (r, sb)
        \<and> cleanupExpiredFiles e st =
            Inr (say (Completed (fst (now e sb) - clock e (reads st)) (i + r) i r)
                   (snd (now e sb))))"
  using delete_loop_eq cleanupResourceType_list_fails cleanupResourceType_listed
    cleanupExpiredFiles_both_kinds
  by blast

theorem C6_sweep_failures_local_witness:
  "cleanupResourceType e1 Image s1 = Inr (0, say (ErrorFetching Image) s1)
   \<and> sweep_console e1 s1 =
       [StartingCleanup, ErrorFetching Image, FailedToDelete ''bad'', Deleted Raw ''old'',
        Completed 4 1 0 1]
   \<and> sweep_store e1 s1 Raw = [r_bad, r_new]
   \<and> sweep_store e1 s1 Image = [r_old]"
proof -
  have f: "list_fails e1 Image"
    by (simp add: e1_def)
  have a: "cleanupResourceType e1 Image s1 = Inr (0, say (ErrorFetching Image) s1)"
    using C6_sweep_failures_local [of e1 Image "[]" 0 s1, THEN conjunct2, THEN conjunct1] f by simp
  have b: "sweep_console e1 s1 =
       [StartingCleanup, ErrorFetching Image, FailedToDelete ''bad'', Deleted Raw ''old'',
        Completed 4 1 0 1]"
    by code_simp
  have c: "sweep_store e1 s1 Raw = [r_bad, r_new]"
    by code_simp
  have d: "sweep_store e1 s1 Image = [r_old]"
    by code_simp
  from a b c d show ?thesis by blast
qed

lemma cleanupResourceType_empty:
  "store s k = [] \<Longrightarrow> \<not> list_fails e k \<Longrightarrow> cleanupResourceType e k s = Inr (0, s)"
  by (simp add: cleanupResourceType_listed listed_eq tagged_objects_def)

lemma cleanupResourceType_old_new:
  assumes st: "store s k = [a, b]"
    and which: "(a = old \<and> b = new) \<or> (a = new \<and> b = old)"
    and tagged: "''temp_upload'' \<in> set (tags old)" "''temp_upload'' \<in> set (tags new)"
    and ids: "public_id old \<noteq> public_id new"
    and times: "created_at old = Some c_old" "created_at new = Some c_new"
    and expired: "clock e (reads s) - c_old > FILE_TTL_HOURS e * 60 * 60 * 1000"
      "clock e (reads s + 1) - c_old > FILE_TTL_HOURS e * 60 * 60 * 1000"
    and fresh: "\<not> clock e (reads s) - c_new > FILE_TTL_HOURS e * 60 * 60 * 1000"
      "\<not> clock e (reads s + 1) - c_new > FILE_TTL_HOURS e * 60 * 60 * 1000"
    and up: "\<not> list_fails e k" "\<not> destroy_fails e (public_id old)"
  shows "cleanupResourceType e k s =
     Inr (1, s\<lparr>store := (store s)(k := [new]), reads := reads s + 2,
               console := console s @ [Deleted k (public_id old)]\<rparr>)"
proof -
  have l: "listed e k s = [a, b]"
    using st which tagged up(1) by (auto simp: listed_eq tagged_objects_def)
  have f: "filter_expired e [a, b] s = ([old], s\<lparr>reads := reads s + 2\<rparr>)"
    using which times expired fresh
    by (auto simp: isExpired_def now_def Let_def)
  have w: "without [old] [a, b] = [new]"
    using which ids by (auto simp: without_def)
  show ?thesis
    using up st
    by (simp add: cleanupResourceType_listed l f delete_loop_eq ok_def outcome_def w
          del: filter_expired.simps)
qed

text \<open>
  Claim C9, amended. A sweep over a store that holds two tagged objects of one kind, one
  older than the time to live at the two readings of the clock that \<open>isExpired\<close> takes and
  one not older, with the listings and the deletion of the older one succeeding, deletes
  the older object and leaves the newer one; its report states one deleted file, counted
  under its kind; the report has no count of attempts, and one deletion is attempted.
\<close>

theorem C9_sweep_old_and_new:
  assumes st: "store st k = [a, b]" and other: "\<forall>k'. k' \<noteq> k \<longrightarrow> store st k' = []"
    and which: "(a = old \<and> b = new) \<or> (a = new \<and> b = old)"
    and tagged: "''temp_upload'' \<in> set (tags old)" "''temp_upload'' \<in> set (tags new)"
    and ids: "public_id old \<noteq> public_id new"
    and times: "created_at old = Some c_old" "created_at new = Some c_new"
    and expired: "clock e (reads st + 1) - c_old > FILE_TTL_HOURS e * 60 * 60 * 1000"
      "clock e (reads st + 2) - c_old > FILE_TTL_HOURS e * 60 * 60 * 1000"
    and fresh: "\<not> clock e (reads st + 1) - c_new > FILE_TTL_HOURS e * 60 * 60 * 1000"
      "\<not> clock e (reads st + 2) - c_new > FILE_TTL_HOURS e * 60 * 60 * 1000"
    and up: "\<not> list_fails e Image" "\<not> list_fails e Raw" "\<not> destroy_fails e (public_id old)"
  shows "(\<exists>s. cleanupExpiredFiles e st = Inr s)
    \<and> sweep_store e st k = [new]
    \<and> (\<forall>k'. k' \<noteq> k \<longrightarrow> sweep_store e st k' = [])
    \<and> sweep_console e st =
         console st @
         [StartingCleanup, Deleted k (public_id old),
          Completed (clock e (reads st + 3) - clock e (reads st)) 1
            (if k = Image then 1 else 0) (if k = Raw then 1 else 0)]
    \<and> attempts (sweep_console e st) = attempts (console st) + 1"
proof -
  let ?s1 = "snd (now e (say StartingCleanup st))"
  have s1: "store ?s1 = store st" "reads ?s1 = reads st + 1"
    "console ?s1 = console st @ [StartingCleanup]"
    by (simp_all add: now_def say_def)
  have upk: "\<not> list_fails e k"
    using up by (cases k) simp_all
  have final: "cleanupExpiredFiles e st =
      Inr (st\<lparr>store := (store st)(k := [new]), reads := reads st + 4,
              console := console st @
                [StartingCleanup, Deleted k (public_id old),
                 Completed (clock e (reads st + 3) - clock e (reads st)) 1
                   (if k = Image then 1 else 0) (if k = Raw then 1 else 0)]\<rparr>)"
  proof (cases k)
    case Image
    have a1: "cleanupResourceType e Image ?s1 =
        Inr (1, ?s1\<lparr>store := (store ?s1)(Image := [new]), reads := reads ?s1 + 2,
               console := console ?s1 @ [Deleted Image (public_id old)]\<rparr>)"
      using st which tagged ids times expired fresh up(1,3) unfolding Image
      by (intro cleanupResourceType_old_new) (simp_all add: s1)
    have "store st Raw = []"
      using other Image by simp
    then have a2: "cleanupResourceType e Raw s' = Inr (0, s')"
      if "store s' = (store st)(Image := [new])" for s'
      using that up(2) by (simp add: cleanupResourceType_empty)
    show ?thesis
      unfolding Image
      by (simp add: cleanupExpiredFiles_def cleanupExpiredFiles_try_def Let_def a1 a2 s1
            split_beta)
         (simp add: now_def say_def eval_nat_numeral)
  next
    case Raw
    have "store st Image = []"
      using other Raw by simp
    then have b1: "cleanupResourceType e Image ?s1 = Inr (0, ?s1)"
      using up(1) by (simp add: cleanupResourceType_empty s1)
    have b2: "cleanupResourceType e Raw ?s1 =
        Inr (1, ?s1\<lparr>store := (store ?s1)(Raw := [new]), reads := reads ?s1 + 2,
               console := console ?s1 @ [Deleted Raw (public_id old)]\<rparr>)"
      using st which tagged ids times expired fresh up(2,3) unfolding Raw
      by (intro cleanupResourceType_old_new) (simp_all add: s1)
    show ?thesis
      unfolding Raw
      by (simp add: cleanupExpiredFiles_def cleanupExpiredFiles_try_def Let_def b1 b2 s1
            split_beta)
         (simp add: now_def say_def eval_nat_numeral)
  qed
  show ?thesis
    using other
    by (simp add: final sweep_store_def sweep_console_def attempts_def)
qed


text \<open>
  Against claim C9 as it is stated: the sweep over an expired and a fresh image reports
  \<open>Completed\<close> with 1 deleted, 1 image and 0 raw files, which is all it reports, and it
  attempts one deletion, not two.
\<close>

theorem C9_no_attempted_count_counterexample:
  "sweep_console e0 s0 = [StartingCleanup, Deleted Image ''old'', Completed 3 1 1 0]
   \<and> attempts (sweep_console e0 s0) = 1
   \<and> attempts (sweep_console e0 s0) \<noteq> 2"
proof -
  have c: "sweep_console e0 s0 = [StartingCleanup, Deleted Image ''old'', Completed 3 1 1 0]"
    by code_simp
  show ?thesis
    unfolding c by (simp add: attempts_def)
qed

theorem C9_sweep_old_and_new_witness:
  "(\<exists>s. cleanupExpiredFiles e0 s0 = Inr s)
   \<and> sweep_store e0 s0 Image = [r_new]
   \<and> sweep_console e0 s0 = [StartingCleanup, Deleted Image ''old'', Completed 3 1 1 0]
   \<and> attempts (sweep_console e0 s0) = 1"
proof -
  have "(\<exists>s. cleanupExpiredFiles e0 s0 = Inr s)
    \<and> sweep_store e0 s0 Image = [r_new]
    \<and> (\<forall>k'. k' \<noteq> Image \<longrightarrow> sweep_store e0 s0 k' = [])
    \<and> sweep_console e0 s0 =
         console s0 @
         [StartingCleanup, Deleted Image (public_id r_old),
          Completed (clock e0 (reads s0 + 3) - clock e0 (reads s0)) 1
            (if Image = Image then 1 else 0) (if Image = Raw then 1 else 0)]
    \<and> attempts (sweep_console e0 s0) = attempts (console s0) + 1"
    by (rule C9_sweep_old_and_new [where a = r_old and b = r_new and c_old = 0 and c_new = 3000000])
       (simp_all add: s0_def e0_def r_old_def r_new_def)
  then show ?thesis
    by (simp add: s0_def e0_def r_old_def attempts_def)
qed

section \<open>Properties of the schedule\<close>

lemma resumed_add: "resumed e (m + n) c = resumed e n (resumed e m c)"
  by (induction m arbitrary: c) simp_all

lemma resumed_next_delete:
  "\<exists>n. resumed e n (next_delete e k start im rs c st) =
     after_kind e k start im (fst (delete_loop e k rs c st)) (snd (delete_loop e k rs c st))"
proof (induction rs arbitrary: c st)
  case Nil
  have "resumed e 0 (next_delete e k start im [] c st) =
      after_kind e k start im (fst (delete_loop e k [] c st)) (snd (delete_loop e k [] c st))"
    by (simp add: next_delete_def)
  then show ?case by blast
next
  case (Cons r rs)
  show ?case
  proof (cases "deleteResource e (public_id r) k st")
    case (Inl failure)
    obtain err st1 where f: "failure = (err, st1)"
      by (cases failure)
    let ?st = "say (FailedToDelete (public_id r)) st1"
    obtain n where n: "resumed e n (next_delete e k start im rs c ?st) =
        after_kind e k start im (fst (delete_loop e k rs c ?st)) (snd (delete_loop e k rs c ?st))"
      using Cons.IH by blast
    have "resumed e (Suc n) (next_delete e k start im (r # rs) c st) =
        after_kind e k start im (fst (delete_loop e k (r # rs) c st))
          (snd (delete_loop e k (r # rs) c st))"
      using n Inl f by (simp add: next_delete_def)
    then show ?thesis by blast
  next
    case (Inr st1)
    let ?st = "say (Deleted k (public_id r)) st1"
    obtain n where n: "resumed e n (next_delete e k start im rs (c + 1) ?st) =
        after_kind e k start im (fst (delete_loop e k rs (c + 1) ?st))
          (snd (delete_loop e k rs (c + 1) ?st))"
      using Cons.IH by blast
    have "resumed e (Suc n) (next_delete e k start im (r # rs) c st) =
        after_kind e k start im (fst (delete_loop e k (r # rs) c st))
          (snd (delete_loop e k (r # rs) c st))"
      using n Inr by (simp add: next_delete_def)
    then show ?thesis by blast
  qed
qed

lemma resumed_listing:
  assumes "cleanupResourceType e k st = Inr (c, s')"
  shows "\<exists>n. resumed e (Suc n) (AwaitListing k start im, st) = after_kind e k start im c s'"
proof (cases "getResourcesByTag e ''temp_upload'' k st")
  case (Inl failure)
  obtain err st1 where f: "failure = (err, st1)"
    by (cases failure)
  have "c = 0 \<and> s' = say (ErrorFetching k) st1"
    using assms Inl f by (simp add: cleanupResourceType_def cleanupResourceType_try_def)
  then have "resumed e (Suc 0) (AwaitListing k start im, st) = after_kind e k start im c s'"
    using Inl f by simp
  then show ?thesis by blast
next
  case (Inr answer)
  obtain result st1 where a: "answer = (result, st1)"
    by (cases answer)
  show ?thesis
  proof (cases "length (resources result) = 0")
    case True
    have "c = 0 \<and> s' = st1"
      using assms Inr a True by (simp add: cleanupResourceType_def cleanupResourceType_try_def)
    then have "resumed e (Suc 0) (AwaitListing k start im, st) = after_kind e k start im c s'"
      using Inr a True by simp
    then show ?thesis by blast
  next
    case False
    obtain expired st2 where x: "filter_expired e (resources result) st1 = (expired, st2)"
      by (cases "filter_expired e (resources result) st1")
    have d: "delete_loop e k expired 0 st2 = (c, s')"
      using assms Inr a False x
      by (simp add: cleanupResourceType_def cleanupResourceType_try_def)
    obtain n where "resumed e n (next_delete e k start im expired 0 st2) =
        after_kind e k start im (fst (delete_loop e k expired 0 st2))
          (snd (delete_loop e k expired 0 st2))"
      using resumed_next_delete by blast
    then have "resumed e (Suc n) (AwaitListing k start im, st) = after_kind e k start im c s'"
      using Inr a False x d by simp
    then show ?thesis by blast
  qed
qed

lemma sweep_alone:
  "\<exists>n s'. cleanupExpiredFiles e st = Inr s' \<and> resumed e n (invoke e st) = (Finished, s')"
proof -
  let ?s1 = "snd (now e (say StartingCleanup st))"
  let ?start = "clock e (reads st)"
  obtain i sa r sb where
    a: "cleanupResourceType e Image ?s1 = Inr (i, sa)" and
    b: "cleanupResourceType e Raw sa = Inr (r, sb)" and
    c: "cleanupExpiredFiles e st =
         Inr (say (Completed (fst (now e sb) - clock e (reads st)) (i + r) i r) (snd (now e sb)))"
    using cleanupExpiredFiles_both_kinds by blast
  have inv: "invoke e st = (AwaitListing Image ?start 0, ?s1)"
    by (simp add: invoke_def now_def say_def)
  obtain n1 where n1: "resumed e (Suc n1) (AwaitListing Image ?start 0, ?s1) =
      after_kind e Image ?start 0 i sa"
    using resumed_listing [OF a] by blast
  obtain n2 where n2: "resumed e (Suc n2) (AwaitListing Raw ?start i, sa) =
      after_kind e Raw ?start i r sb"
    using resumed_listing [OF b] by blast
  have "resumed e (Suc n1 + Suc n2) (invoke e st) = after_kind e Raw ?start i r sb"
    unfolding resumed_add inv n1 using n2 by (simp add: after_kind_def)
  moreover have "after_kind e Raw ?start i r sb =
      (Finished,
       say (Completed (fst (now e sb) - clock e (reads st)) (i + r) i r) (snd (now e sb)))"
    by (simp add: after_kind_def Let_def split_beta)
  ultimately show ?thesis
    using c by metis
qed

lemma fire_Tick:
  "fire e p Tick = \<lparr>tasks = tasks p @ [fst (invoke e (world p))], world = snd (invoke e (world p))\<rparr>"
  by (simp add: split_beta)

lemma invoke_not_Finished: "fst (invoke e st) \<noteq> Finished"
  by (simp add: invoke_def Let_def split_beta)

text \<open>
  Claim C5, amended. Every tick of the scheduler invokes \<open>cleanupExpiredFiles\<close>, whatever
  sweeps are in progress: the code keeps no state that tells an idle scheduler from a
  sweeping one, so a tick during a sweep starts one more sweep beside it, and no tick is
  dropped or queued. A sweep that is resumed with no other sweep running ends, in the
  state the sequential sweep returns.
\<close>

theorem C5_every_tick_starts_a_sweep:
  "tasks (fire e p Tick) =
     tasks p @ [AwaitListing Image (clock e (reads (world p))) 0]
   \<and> active (fire e p Tick) = active p + 1
   \<and> (\<exists>n s'. cleanupExpiredFiles e st = Inr s' \<and> resumed e n (invoke e st) = (Finished, s'))"
proof (intro conjI)
  show "tasks (fire e p Tick) = tasks p @ [AwaitListing Image (clock e (reads (world p))) 0]"
    unfolding fire_Tick by (simp add: invoke_def now_def say_def)
  show "active (fire e p Tick) = active p + 1"
    unfolding fire_Tick by (simp add: active_def invoke_not_Finished)
  show "\<exists>n s'. cleanupExpiredFiles e st = Inr s' \<and> resumed e n (invoke e st) = (Finished, s')"
    by (rule sweep_alone)
qed

text \<open>
  Against claim C5 as it is stated: a tick that arrives while the first sweep is in its
  deletion loop starts a second sweep (two in progress), and the second expired object
  then gets a deletion from each of the two sweeps.
\<close>

theorem C5_overlapping_sweeps_counterexample:
  "active (run e0 p0 [Tick, Resume 0, Resume 0]) = 1
   \<and> active (run e0 p0 [Tick, Resume 0, Resume 0, Tick]) = 2
   \<and> console (world (run e0 p0 overlap)) =
       [StartingCleanup, Deleted Image ''old'', StartingCleanup,
        Deleted Image ''old2'', Deleted Image ''old2'']"
  by code_simp

theorem C5_every_tick_starts_a_sweep_witness:
  "tasks (fire e0 \<lparr>tasks = [AwaitListing Raw 5 1], world = s0\<rparr> Tick) =
     [AwaitListing Raw 5 1, AwaitListing Image 3600002 0]
   \<and> active (fire e0 \<lparr>tasks = [AwaitListing Raw 5 1], world = s0\<rparr> Tick) = 2"
  using C5_every_tick_starts_a_sweep [of e0 "\<lparr>tasks = [AwaitListing Raw 5 1], world = s0\<rparr>" s0]
  by (simp add: e0_def s0_def active_def)

section \<open>The two split routes\<close>

text \<open>
  Claim C10. The split route of the serverless deployment and the server's path through
  \<open>parsePageRange\<close> and \<open>splitPdf\<close> are to select the same pages, give the same outputs
  and fail in the same cases. They do on a request such as \<open>2-4;5\<close>; they do not on a
  five-page document for the mixed group \<open>1-3,5\<close> (no page against the pages 1, 2, 3 and
  5), the descending range \<open>3-1\<close> (an empty output against \<open>NoValidPages\<close>), the repeated
  page \<open>1,1\<close> (the page twice against once) and the request \<open>1;99\<close> with a page out of
  bounds (a failure against the output of the first group).
\<close>

theorem C10_split_routes_differ:
  "api_split (Pdf ''abcde'') ''1-3,5'' =
     Some (Inr [\<lparr>buffer = Pdf [], pages = ''1-3,5'', pageCount = 0\<rparr>])
   \<and> splitDocument (Pdf ''abcde'') ''1-3,5'' =
       Inr [\<lparr>buffer = Pdf ''abce'', pages = ''1-3,5'', pageCount = 4\<rparr>]
   \<and> api_split (Pdf ''abcde'') ''3-1'' =
       Some (Inr [\<lparr>buffer = Pdf [], pages = ''3-1'', pageCount = 0\<rparr>])
   \<and> splitDocument (Pdf ''abcde'') ''3-1'' = Inl NoValidPages
   \<and> api_split (Pdf ''abcde'') ''1,1'' =
       Some (Inr [\<lparr>buffer = Pdf ''aa'', pages = ''1,1'', pageCount = 2\<rparr>])
   \<and> splitDocument (Pdf ''abcde'') ''1,1'' =
       Inr [\<lparr>buffer = Pdf ''a'', pages = ''1,1'', pageCount = 1\<rparr>]
   \<and> api_split (Pdf ''abcde'') ''1;99'' = Some (Inl FailedToSplit)
   \<and> splitDocument (Pdf ''abcde'') ''1;99'' =
       Inr [\<lparr>buffer = Pdf ''a'', pages = ''1'', pageCount = 1\<rparr>]
   \<and> api_split (Pdf ''abcde'') ''2-4;5'' =
       Some (Inr [\<lparr>buffer = Pdf ''bcd'', pages = ''2-4'', pageCount = 3\<rparr>,
                  \<lparr>buffer = Pdf ''e'', pages = ''5'', pageCount = 1\<rparr>])
   \<and> splitDocument (Pdf ''abcde'') ''2-4;5'' =
       Inr [\<lparr>buffer = Pdf ''bcd'', pages = ''2-4'', pageCount = 3\<rparr>,
            \<lparr>buffer = Pdf ''e'', pages = ''5'', pageCount = 1\<rparr>]"
  by code_simp

end
